theory Spec2Isabelle
  imports Main "HOL-Library.Word" "HOL-Library.Sublist"
begin

section \<open>Connection pools of transport/grpc (pool.go)\<close>

text \<open>
  The file \<^verbatim>\<open>transport/grpc/pool.go\<close> declares the interface \<^verbatim>\<open>ConnPool\<close> with the
  two methods \<^verbatim>\<open>Conn\<close> and \<^verbatim>\<open>Close\<close>, its two implementations \<^verbatim>\<open>singleConnPool\<close> and
  \<^verbatim>\<open>roundRobinConnPool\<close>, and the error type \<^verbatim>\<open>multiError\<close>.

  Connection handles (\<^verbatim>\<open>*grpc.ClientConn\<close>) are opaque: they are the values of a type
  variable \<open>'c\<close>. The only operation the pool performs on a handle is \<^verbatim>\<open>Close\<close>.
\<close>

subsection \<open>Errors\<close>

text \<open>
  A Go \<^verbatim>\<open>error\<close> is an interface value with one method \<^verbatim>\<open>Error() string\<close>; the interface
  value may be \<^verbatim>\<open>nil\<close>. A non-nil error is either an error of some other package, known
  here by the string its \<^verbatim>\<open>Error\<close> method returns, or a \<^verbatim>\<open>multiError\<close>, which is a slice
  of \<^verbatim>\<open>error\<close> values (\<^verbatim>\<open>type multiError []error\<close>). A possibly nil error is an
  \<open>error option\<close>, with \<open>None\<close> for \<^verbatim>\<open>nil\<close>.
\<close>

datatype error = errorString string | multiError "error option list"

text \<open>
  The verb \<^verbatim>\<open>%d\<close> of \<^verbatim>\<open>fmt.Sprintf\<close> (Go standard library) prints an integer in base 10,
  with a leading minus sign when it is negative and no padding. \<open>digit\<close> is only
  applied to numbers below 10.
\<close>

definition digit :: "nat \<Rightarrow> char" where
  "digit d = ''0123456789'' ! d"

fun FormatUint :: "nat \<Rightarrow> string" where
  "FormatUint n = (if n < 10 then [digit n] else FormatUint (n div 10) @ [digit (n mod 10)])"

declare FormatUint.simps [simp del]

definition FormatInt :: "int \<Rightarrow> string" where
  "FormatInt i = (if i < 0 then CHR ''-'' # FormatUint (nat (- i)) else FormatUint (nat i))"

text \<open>
  \<^verbatim>\<open>
  func (m multiError) Error() string {
      s, n := "", 0
      for _, e := range m {
          if e != nil {
              if n == 0 {
                  s = e.Error()
              }
              n++
          }
      }
      switch n {
      case 0:
          return "(0 errors)"
      case 1:
          return s
      case 2:
          return s + " (and 1 other error)"
      }
      return fmt.Sprintf("%s (and %d other errors)", s, n-1)
  }
  \<close>
  \<open>Error\<close> is the method \<^verbatim>\<open>Error\<close> of the interface, \<open>multiError_range\<close> the \<^verbatim>\<open>for\<close> loop
  of \<^verbatim>\<open>multiError.Error\<close> with the loop variables \<^verbatim>\<open>s\<close> and \<^verbatim>\<open>n\<close> passed along, and
  \<open>multiError_switch\<close> the \<^verbatim>\<open>switch\<close> with the final \<^verbatim>\<open>Sprintf\<close>. The counter \<^verbatim>\<open>n\<close> is a Go
  \<^verbatim>\<open>int\<close>; it is incremented at most \<^verbatim>\<open>len(m)\<close> times from 0 and \<^verbatim>\<open>len(m)\<close> is itself an
  \<^verbatim>\<open>int\<close>, so it never overflows and is an \<open>int\<close> here.
\<close>

definition multiError_switch :: "string \<Rightarrow> int \<Rightarrow> string" where
  "multiError_switch s n =
     (if n = 0 then ''(0 errors)''
      else if n = 1 then s
      else if n = 2 then s @ '' (and 1 other error)''
      else s @ '' (and '' @ FormatInt (n - 1) @ '' other errors)'')"

function Error :: "error \<Rightarrow> string"
  and multiError_range :: "error option list \<Rightarrow> string \<Rightarrow> int \<Rightarrow> string \<times> int" where
  "Error (errorString msg) = msg"
| "Error (multiError m) = (case multiError_range m [] 0 of (s, n) \<Rightarrow> multiError_switch s n)"
| "multiError_range [] s n = (s, n)"
| "multiError_range (None # m) s n = multiError_range m s n"
| "multiError_range (Some e # m) s n = multiError_range m (if n = 0 then Error e else s) (n + 1)"
  by pat_completeness auto
termination
  by (relation "measure (\<lambda>x. case x of Inl e \<Rightarrow> size e
                                    | Inr (m, s, n) \<Rightarrow> size_list (size_option size) m)") auto

subsection \<open>Closing a connection handle\<close>

text \<open>
  \<^verbatim>\<open>(*grpc.ClientConn).Close\<close> belongs to another package. It acts on the world outside the
  pool and returns a possibly nil error. The world is the sequence of handles on which
  \<^verbatim>\<open>Close\<close> has been called so far, oldest first, and the behaviour of the handles is a
  parameter \<open>res\<close>: \<open>res w c\<close> is what \<^verbatim>\<open>c.Close()\<close> returns when the calls \<open>w\<close> came
  before it. So the outcome of closing a handle may depend on the handle and on every
  earlier call (closing a handle a second time may fail where the first call succeeded).
\<close>

type_synonym 'c closes = "'c list"
type_synonym 'c outcomes = "'c closes \<Rightarrow> 'c \<Rightarrow> error option"

definition ClientConn_Close :: "'c outcomes \<Rightarrow> 'c \<Rightarrow> 'c closes \<Rightarrow> error option \<times> 'c closes" where
  "ClientConn_Close res c w = (res w c, w @ [c])"

subsection \<open>The single connection pool\<close>

text \<open>
  \<^verbatim>\<open>
  type singleConnPool struct {
      conn *grpc.ClientConn
  }
  func (p *singleConnPool) Conn() *grpc.ClientConn { return p.conn }
  func (p *singleConnPool) Close() error { return p.conn.Close() }
  \<close>
\<close>

record 'c singleConnPool =
  conn :: 'c

definition singleConnPool_Conn :: "'c singleConnPool \<Rightarrow> 'c" where
  "singleConnPool_Conn p = conn p"

definition singleConnPool_Close ::
  "'c outcomes \<Rightarrow> 'c singleConnPool \<Rightarrow> 'c closes \<Rightarrow> error option \<times> 'c closes" where
  "singleConnPool_Close res p w = ClientConn_Close res (conn p) w"

subsection \<open>The round-robin pool\<close>

text \<open>
  \<^verbatim>\<open>
  type roundRobinConnPool struct {
      conns []*grpc.ClientConn
      idx uint32 // access via sync/atomic
  }
  func (p *roundRobinConnPool) Conn() *grpc.ClientConn {
      i := atomic.AddUint32(&p.idx, 1)
      return p.conns[i%uint32(len(p.conns))]
  }
  \<close>
  \<^verbatim>\<open>atomic.AddUint32\<close> adds with wrap-around, stores the sum and returns it. \<^verbatim>\<open>len\<close> returns
  an \<^verbatim>\<open>int\<close> (64 bits on amd64 and arm64) and the conversion \<^verbatim>\<open>uint32(...)\<close> keeps its low
  32 bits. The remainder \<^verbatim>\<open>%\<close> panics when the divisor is zero, and indexing panics when
  the index is not below the length. A call returns the handle or the panic, together
  with the pool as the call leaves it.
\<close>

record 'c roundRobinConnPool =
  conns :: "'c list"
  idx :: "32 word"

datatype panic = DivideByZero | IndexOutOfRange

definition AddUint32 :: "32 word \<Rightarrow> 32 word \<Rightarrow> 32 word" where
  "AddUint32 v delta = v + delta"

definition roundRobinConnPool_Conn ::
  "'c roundRobinConnPool \<Rightarrow> (panic + 'c) \<times> 'c roundRobinConnPool" where
  "roundRobinConnPool_Conn p =
     (let i = AddUint32 (idx p) 1;
          p' = p\<lparr>idx := i\<rparr>;
          n = (word_of_nat (length (conns p)) :: 32 word)
      in if n = 0 then (Inl DivideByZero, p')
         else let j = unat (i mod n)
              in if j < length (conns p) then (Inr (conns p ! j), p')
                 else (Inl IndexOutOfRange, p'))"

text \<open>
  \<^verbatim>\<open>
  func (p *roundRobinConnPool) Close() error {
      var errs multiError
      for _, conn := range p.conns {
          if err := conn.Close(); err != nil {
              errs = append(errs, err)
          }
      }
      if len(errs) == 0 {
          return nil
      }
      return errs
  }
  \<close>
  \<open>Close_range\<close> is the \<^verbatim>\<open>for\<close> loop, with \<^verbatim>\<open>errs\<close> and the world passed along.
\<close>

fun Close_range ::
  "'c outcomes \<Rightarrow> 'c list \<Rightarrow> error option list \<Rightarrow> 'c closes \<Rightarrow> error option list \<times> 'c closes" where
  "Close_range res [] errs w = (errs, w)"
| "Close_range res (c # cs) errs w =
     (case ClientConn_Close res c w of
        (err, w') \<Rightarrow>
          if err \<noteq> None then Close_range res cs (errs @ [err]) w'
          else Close_range res cs errs w')"

definition roundRobinConnPool_Close ::
  "'c outcomes \<Rightarrow> 'c roundRobinConnPool \<Rightarrow> 'c closes \<Rightarrow> error option \<times> 'c closes" where
  "roundRobinConnPool_Close res p w =
     (case Close_range res (conns p) [] w of
        (errs, w') \<Rightarrow>
          if length errs = 0 then (None, w') else (Some (multiError errs), w'))"

subsection \<open>The interface\<close>

text \<open>
  \<^verbatim>\<open>ConnPool\<close> is implemented by \<^verbatim>\<open>*singleConnPool\<close> and \<^verbatim>\<open>*roundRobinConnPool\<close>; a method
  call on the interface value runs the method of the implementation it holds.
\<close>

datatype 'c ConnPool =
  Single "'c singleConnPool"
| RoundRobin "'c roundRobinConnPool"

fun ConnPool_Conn :: "'c ConnPool \<Rightarrow> (panic + 'c) \<times> 'c ConnPool" where
  "ConnPool_Conn (Single p) = (Inr (singleConnPool_Conn p), Single p)"
| "ConnPool_Conn (RoundRobin p) =
     (case roundRobinConnPool_Conn p of (r, p') \<Rightarrow> (r, RoundRobin p'))"

fun ConnPool_Close :: "'c outcomes \<Rightarrow> 'c ConnPool \<Rightarrow> 'c closes \<Rightarrow> error option \<times> 'c closes" where
  "ConnPool_Close res (Single p) w = singleConnPool_Close res p w"
| "ConnPool_Close res (RoundRobin p) w = roundRobinConnPool_Close res p w"

subsection \<open>Sequences of calls\<close>

text \<open>
  \<open>Conn_calls k p\<close> calls \<^verbatim>\<open>Conn\<close> on a round-robin pool \<open>k\<close> times, one call after the
  other, and returns what the calls returned, first call first, with the pool after the
  last call. \<open>close_results res w cs\<close> is what the handles \<open>cs\<close> return when they are
  closed one after the other in the world \<open>w\<close>. \<open>non_nil m\<close> is the slice \<open>m\<close> without its
  nil entries.
\<close>

fun Conn_calls ::
  "nat \<Rightarrow> 'c roundRobinConnPool \<Rightarrow> (panic + 'c) list \<times> 'c roundRobinConnPool" where
  "Conn_calls 0 p = ([], p)"
| "Conn_calls (Suc k) p =
     (case roundRobinConnPool_Conn p of
        (r, p') \<Rightarrow> (case Conn_calls k p' of (rs, p'') \<Rightarrow> (r # rs, p'')))"

fun close_results :: "'c outcomes \<Rightarrow> 'c closes \<Rightarrow> 'c list \<Rightarrow> error option list" where
  "close_results res w [] = []"
| "close_results res w (c # cs) = res w c # close_results res (w @ [c]) cs"

fun non_nil :: "error option list \<Rightarrow> error list" where
  "non_nil [] = []"
| "non_nil (None # m) = non_nil m"
| "non_nil (Some e # m) = e # non_nil m"

text \<open>
  \<open>fails_with e\<close> is the behaviour of handles whose every close fails with the error
  \<open>e\<close>.
\<close>

definition fails_with :: "error \<Rightarrow> 'c outcomes" where
  "fails_with e w c = Some e"

section \<open>Properties\<close>

subsection \<open>Rendering of the aggregate error\<close>

lemma FormatUint_examples:
  "FormatUint 0 = ''0''" "FormatUint 2 = ''2''" "FormatUint 10 = ''10''" "FormatUint 4096 = ''4096''"
  by (simp_all add: FormatUint.simps digit_def)

lemma FormatInt_int: "FormatInt (int k) = FormatUint k"
  by (simp add: FormatInt_def)

lemma FormatInt_examples: "FormatInt 2 = ''2''" "FormatInt 123 = ''123''" "FormatInt (- 45) = ''-45''"
  by (simp_all add: FormatInt_def FormatUint.simps digit_def)

text \<open>
  The loop keeps the message of the first non-nil entry and counts the non-nil entries.
  The accumulator is generalised: the loop may start from any \<open>s\<close> and any \<open>n \<ge> 0\<close>.
\<close>

lemma multiError_range_closed:
  "0 \<le> n \<Longrightarrow> multiError_range m s n =
     (if n = 0 \<and> non_nil m \<noteq> [] then Error (hd (non_nil m)) else s,
      n + int (length (non_nil m)))"
proof (induction m arbitrary: s n)
  case Nil
  then show ?case by simp
next
  case (Cons a m)
  show ?case
  proof (cases a)
    case None
    with Cons show ?thesis by simp
  next
    case (Some e)
    have "0 \<le> n + 1" using Cons.prems by simp
    from Cons.IH [OF this] Cons.prems Some show ?thesis by simp
  qed
qed

lemma non_nil_map_the: "None \<notin> set m \<Longrightarrow> non_nil m = map the m"
  by (induction m rule: non_nil.induct) auto

lemma multiError_switch_prefix: "n \<noteq> 0 \<Longrightarrow> prefix s (multiError_switch s n)"
  by (simp add: multiError_switch_def)

text \<open>
  Outside its case 0 the \<^verbatim>\<open>switch\<close> returns the text \<open>''(0 errors)''\<close> only in case 1, and
  only when \<open>s\<close> is that text: the suffixes of the other cases are longer than it.
\<close>

lemma multiError_switch_zero_text:
  "n \<noteq> 0 \<Longrightarrow> multiError_switch s n = ''(0 errors)'' \<longleftrightarrow> n = 1 \<and> s = ''(0 errors)''"
proof -
  assume n: "n \<noteq> 0"
  have two: "s @ '' (and 1 other error)'' \<noteq> ''(0 errors)''"
  proof
    assume "s @ '' (and 1 other error)'' = ''(0 errors)''"
    then have "length (s @ '' (and 1 other error)'') = length ''(0 errors)''" by (rule arg_cong)
    then show False by simp
  qed
  have more: "s @ '' (and '' @ t @ '' other errors)'' \<noteq> ''(0 errors)''" for t
  proof
    assume "s @ '' (and '' @ t @ '' other errors)'' = ''(0 errors)''"
    then have "length (s @ '' (and '' @ t @ '' other errors)'') = length ''(0 errors)''"
      by (rule arg_cong)
    then show False by simp
  qed
  show ?thesis using n two more by (simp add: multiError_switch_def)
qed

lemma multiError_examples:
  "Error (multiError []) = ''(0 errors)''"
  "Error (multiError [Some (errorString ''x'')]) = ''x''"
  "Error (multiError [Some (errorString ''x''), Some (errorString ''y'')])
     = ''x (and 1 other error)''"
  "Error (multiError [Some (errorString ''x''), Some (errorString ''y''), Some (errorString ''z'')])
     = ''x (and 2 other errors)''"
  "Error (multiError [None, Some (errorString ''x''), None, Some (errorString ''y'')])
     = ''x (and 1 other error)''"
  by (simp_all add: multiError_switch_def FormatInt_def FormatUint.simps digit_def)

text \<open>
  Claim C2. For every sequence \<open>m\<close> of possibly nil errors, with \<open>n\<close> the number of its
  non-nil entries, the text of the aggregate error is \<open>''(0 errors)''\<close> when \<open>n = 0\<close>, the
  message of the only non-nil entry when \<open>n = 1\<close>, the message of the first non-nil entry
  followed by \<open>'' (and 1 other error)''\<close> when \<open>n = 2\<close>, and the message of the first
  non-nil entry followed by \<open>'' (and N other errors)''\<close>, with \<open>N = n - 1\<close> in decimal, when
  \<open>n > 2\<close>. Nil entries are neither counted nor chosen.
\<close>

theorem multiError_Error_rendering:
  "Error (multiError m) =
     (let es = non_nil m; n = length es
      in if n = 0 then ''(0 errors)''
         else if n = 1 then Error (hd es)
         else if n = 2 then Error (hd es) @ '' (and 1 other error)''
         else Error (hd es) @ '' (and '' @ FormatInt (int n - 1) @ '' other errors)'')"
  by (simp add: multiError_range_closed multiError_switch_def Let_def)

theorem multiError_Error_rendering_witness:
  "Error (multiError [None, Some (errorString ''a''), Some (errorString ''b''), None,
                      Some (multiError []), Some (errorString ''c'')])
     = ''a (and 3 other errors)''"
  using multiError_Error_rendering
    [of "[None, Some (errorString ''a''), Some (errorString ''b''), None,
          Some (multiError []), Some (errorString ''c'')]"]
  by (simp add: FormatInt_def FormatUint.simps digit_def)

subsection \<open>Closing a round-robin pool\<close>

lemma Close_range_closed:
  "Close_range res cs errs w =
     (errs @ filter (\<lambda>r. r \<noteq> None) (close_results res w cs), w @ cs)"
  by (induction cs arbitrary: errs w) (simp_all add: ClientConn_Close_def)

lemma close_results_length: "length (close_results res w cs) = length cs"
  by (induction cs arbitrary: w) simp_all

text \<open>
  Claim C3. For every round-robin pool and every behaviour \<open>res\<close> of its handles (each
  close succeeding or failing), \<^verbatim>\<open>Close\<close> calls the close operation on every handle of
  the pool exactly once, in the order of the handle sequence: the calls made are exactly
  \<open>conns p\<close>, appended to the calls \<open>w\<close> made before. No failure skips or ends the loop.
\<close>

theorem roundRobin_Close_closes_every_handle:
  "snd (roundRobinConnPool_Close res p w) = w @ conns p"
  by (simp add: roundRobinConnPool_Close_def Close_range_closed)

theorem roundRobin_Close_closes_every_handle_witness:
  "snd (roundRobinConnPool_Close
          (\<lambda>w c. if c = ''A'' then Some (errorString ''closing'') else None)
          \<lparr>conns = [''A'', ''B'', ''C''], idx = 7\<rparr> [])
     = [''A'', ''B'', ''C'']"
  using roundRobin_Close_closes_every_handle
    [of "\<lambda>w c. if c = ''A'' then Some (errorString ''closing'') else None"
        "\<lparr>conns = [''A'', ''B'', ''C''], idx = 7\<rparr>" "[]"]
  by simp

text \<open>
  Claim C4. \<^verbatim>\<open>Close\<close> on a round-robin pool returns nil exactly when every close of a
  handle returned nil. Otherwise it returns the \<^verbatim>\<open>multiError\<close> whose entries are the
  non-nil values the handles returned, in the order met and unchanged.
\<close>

theorem roundRobin_Close_result:
  "fst (roundRobinConnPool_Close res p w) =
     (let failures = filter (\<lambda>r. r \<noteq> None) (close_results res w (conns p))
      in if failures = [] then None else Some (multiError failures)) \<and>
   (fst (roundRobinConnPool_Close res p w) = None \<longleftrightarrow>
      (\<forall>r \<in> set (close_results res w (conns p)). r = None))"
  by (auto simp add: roundRobinConnPool_Close_def Close_range_closed Let_def filter_empty_conv)

theorem roundRobin_Close_result_witness:
  "fst (roundRobinConnPool_Close (\<lambda>w c. None) \<lparr>conns = [1::nat, 2, 3], idx = 0\<rparr> []) = None \<and>
   fst (roundRobinConnPool_Close
          (\<lambda>w c. if c \<in> set w then Some (errorString ''closing'') else None)
          \<lparr>conns = [1::nat, 2, 1], idx = 0\<rparr> [])
     = Some (multiError [Some (errorString ''closing'')])"
  using roundRobin_Close_result [of "\<lambda>w c. None" "\<lparr>conns = [1::nat, 2, 3], idx = 0\<rparr>" "[]"]
    roundRobin_Close_result
      [of "\<lambda>w c. if c \<in> set w then Some (errorString ''closing'') else None"
          "\<lparr>conns = [1::nat, 2, 1], idx = 0\<rparr>" "[]"]
  by simp

text \<open>
  Claim C10, amended. When \<^verbatim>\<open>Close\<close> on a round-robin pool returns a non-nil error,
  that error is a \<^verbatim>\<open>multiError\<close> with at least one entry and no nil entry. So its
  \<^verbatim>\<open>Error\<close> method leaves the loop with a count of at least 1 and the \<^verbatim>\<open>switch\<close> does not
  take its case 0: the text is the rendering for that count of the message of the first
  failure met, and it begins with this message. The text is \<open>''(0 errors)''\<close> exactly when
  one close failed and the message of that failure is itself \<open>''(0 errors)''\<close>.

  So the text can be \<open>''(0 errors)''\<close>: it is when the only failure is an error with that
  message, or a \<^verbatim>\<open>multiError\<close> without entries.
\<close>

theorem roundRobin_Close_error_nonempty:
  "fst (roundRobinConnPool_Close res p w) = Some err \<longrightarrow>
     (let fs = filter (\<lambda>r. r \<noteq> None) (close_results res w (conns p))
      in err = multiError fs \<and> fs \<noteq> [] \<and> None \<notin> set fs \<and>
         1 \<le> snd (multiError_range fs [] 0) \<and>
         Error err = multiError_switch (Error (the (hd fs))) (int (length fs)) \<and>
         prefix (Error (the (hd fs))) (Error err) \<and>
         (Error err = ''(0 errors)'' \<longleftrightarrow>
            length fs = 1 \<and> Error (the (hd fs)) = ''(0 errors)''))"
proof
  assume a: "fst (roundRobinConnPool_Close res p w) = Some err"
  define fs where "fs = filter (\<lambda>r. r \<noteq> None) (close_results res w (conns p))"
  have e: "err = multiError fs" and ne: "fs \<noteq> []"
    using a
    by (auto simp add: roundRobinConnPool_Close_def Close_range_closed fs_def split: if_splits)
  have nn: "None \<notin> set fs" by (simp add: fs_def)
  then have nonnil: "non_nil fs = map the fs" by (rule non_nil_map_the)
  have hd: "hd (non_nil fs) = the (hd fs)" using ne nonnil by (simp add: hd_map)
  have r: "multiError_range fs [] 0 = (Error (the (hd fs)), int (length fs))"
    using ne hd nonnil by (simp add: multiError_range_closed)
  have pos: "int (length fs) \<noteq> 0" using ne by simp
  have rendered: "Error err = multiError_switch (Error (the (hd fs))) (int (length fs))"
    using e r by simp
  have lit: "Error err = ''(0 errors)'' \<longleftrightarrow>
            length fs = 1 \<and> Error (the (hd fs)) = ''(0 errors)''"
    unfolding rendered
    using multiError_switch_zero_text [OF pos, of "Error (the (hd fs))"] by simp
  have "err = multiError fs \<and> fs \<noteq> [] \<and> None \<notin> set fs \<and>
         1 \<le> snd (multiError_range fs [] 0) \<and>
         Error err = multiError_switch (Error (the (hd fs))) (int (length fs)) \<and>
         prefix (Error (the (hd fs))) (Error err) \<and>
         (Error err = ''(0 errors)'' \<longleftrightarrow>
            length fs = 1 \<and> Error (the (hd fs)) = ''(0 errors)'')"
    using e ne nn r pos rendered lit multiError_switch_prefix [OF pos, of "Error (the (hd fs))"]
    by (cases fs) simp_all
  then show "let fs = filter (\<lambda>r. r \<noteq> None) (close_results res w (conns p))
      in err = multiError fs \<and> fs \<noteq> [] \<and> None \<notin> set fs \<and>
         1 \<le> snd (multiError_range fs [] 0) \<and>
         Error err = multiError_switch (Error (the (hd fs))) (int (length fs)) \<and>
         prefix (Error (the (hd fs))) (Error err) \<and>
         (Error err = ''(0 errors)'' \<longleftrightarrow>
            length fs = 1 \<and> Error (the (hd fs)) = ''(0 errors)'')"
    unfolding fs_def Let_def .
qed

theorem roundRobin_Close_error_nonempty_witness:
  "fst (roundRobinConnPool_Close
          (\<lambda>w c. if c = 2 \<or> c = 3 then Some (errorString (''closing '' @ FormatUint c)) else None)
          \<lparr>conns = [1::nat, 2, 3], idx = 0\<rparr> [])
     = Some (multiError [Some (errorString ''closing 2''), Some (errorString ''closing 3'')]) \<and>
   Error (multiError [Some (errorString ''closing 2''), Some (errorString ''closing 3'')])
     = ''closing 2 (and 1 other error)'' \<and>
   prefix ''closing 2''
     (Error (multiError [Some (errorString ''closing 2''), Some (errorString ''closing 3'')])) \<and>
   Error (multiError [Some (errorString ''closing 2''), Some (errorString ''closing 3'')])
     \<noteq> ''(0 errors)''"
proof -
  have h: "fst (roundRobinConnPool_Close
          (\<lambda>w c. if c = 2 \<or> c = 3 then Some (errorString (''closing '' @ FormatUint c)) else None)
          \<lparr>conns = [1::nat, 2, 3], idx = 0\<rparr> [])
     = Some (multiError [Some (errorString ''closing 2''), Some (errorString ''closing 3'')])"
    by (simp add: roundRobinConnPool_Close_def ClientConn_Close_def FormatUint.simps digit_def)
  show ?thesis
    using h roundRobin_Close_error_nonempty
      [of "\<lambda>w c. if c = 2 \<or> c = 3 then Some (errorString (''closing '' @ FormatUint c)) else None"
          "\<lparr>conns = [1::nat, 2, 3], idx = 0\<rparr>" "[]"
          "multiError [Some (errorString ''closing 2''), Some (errorString ''closing 3'')]"]
    by (simp add: multiError_switch_def FormatUint.simps digit_def)
qed

theorem roundRobin_Close_zero_text_counterexample:
  "fst (roundRobinConnPool_Close (fails_with (errorString ''(0 errors)''))
          \<lparr>conns = [0::nat], idx = 0\<rparr> [])
     = Some (multiError [Some (errorString ''(0 errors)'')]) \<and>
   Error (multiError [Some (errorString ''(0 errors)'')]) = ''(0 errors)'' \<and>
   fst (roundRobinConnPool_Close (fails_with (multiError []))
          \<lparr>conns = [0::nat], idx = 0\<rparr> [])
     = Some (multiError [Some (multiError [])]) \<and>
   Error (multiError [Some (multiError [])]) = ''(0 errors)''"
  by (simp add: roundRobinConnPool_Close_def ClientConn_Close_def fails_with_def
        multiError_switch_def)

subsection \<open>The single connection pool\<close>

text \<open>
  Claim C5. A single connection pool holds one handle. \<^verbatim>\<open>Conn\<close> returns that handle, on
  every call, since the call leaves the pool as it is. \<^verbatim>\<open>Close\<close> makes one close call,
  on that handle, and returns what this call returns, nil included: no \<^verbatim>\<open>multiError\<close> is
  built around it.
\<close>

theorem singleConnPool_verbatim:
  "singleConnPool_Conn p = conn p \<and>
   ConnPool_Conn (Single p) = (Inr (conn p), Single p) \<and>
   singleConnPool_Close res p w = (res w (conn p), w @ [conn p]) \<and>
   ConnPool_Close res (Single p) w = ClientConn_Close res (conn p) w"
  by (simp add: singleConnPool_Conn_def singleConnPool_Close_def ClientConn_Close_def)

theorem singleConnPool_verbatim_witness:
  "singleConnPool_Conn \<lparr>conn = ''A''\<rparr> = ''A'' \<and>
   singleConnPool_Close (\<lambda>w c. Some (errorString ''closing'')) \<lparr>conn = ''A''\<rparr> []
     = (Some (errorString ''closing''), [''A'']) \<and>
   singleConnPool_Close (\<lambda>w c. None) \<lparr>conn = ''A''\<rparr> [] = (None, [''A''])"
  using singleConnPool_verbatim [of "\<lparr>conn = ''A''\<rparr>" "\<lambda>w c. Some (errorString ''closing'')" "[]"]
    singleConnPool_verbatim [of "\<lparr>conn = ''A''\<rparr>" "\<lambda>w c. None" "[]"]
  by simp

subsection \<open>Selecting a handle from a round-robin pool\<close>

lemma word_of_nat_32_eq_0: "(word_of_nat N :: 32 word) = 0 \<longleftrightarrow> 2 ^ 32 dvd N"
  by (simp add: word_of_nat_eq_0_iff)

lemma Conn_idx: "snd (roundRobinConnPool_Conn p) = p\<lparr>idx := idx p + 1\<rparr>"
  by (simp add: roundRobinConnPool_Conn_def AddUint32_def Let_def)

text \<open>
  The divisor of the remainder is \<^verbatim>\<open>uint32(len(p.conns))\<close>, the length modulo \<open>2 ^ 32\<close>.
  When it is not zero, the index is below it and so below the length.
\<close>

lemma Conn_index_less:
  assumes "\<not> 2 ^ 32 dvd length (conns p)"
  shows "unat (idx p + 1) mod (length (conns p) mod 2 ^ 32) < length (conns p)"
proof -
  let ?N = "length (conns p)"
  have "0 < ?N mod 2 ^ 32" using assms by (simp add: dvd_eq_mod_eq_0)
  then have "unat (idx p + 1) mod (?N mod 2 ^ 32) < ?N mod 2 ^ 32" by simp
  also have "\<dots> \<le> ?N" by simp
  finally show ?thesis .
qed

lemma Conn_general:
  assumes "\<not> 2 ^ 32 dvd length (conns p)"
  shows "roundRobinConnPool_Conn p =
     (Inr (conns p ! (unat (idx p + 1) mod (length (conns p) mod 2 ^ 32))),
      p\<lparr>idx := idx p + 1\<rparr>)"
proof -
  have nz: "(word_of_nat (length (conns p)) :: 32 word) \<noteq> 0"
    using assms by (simp add: word_of_nat_32_eq_0)
  show ?thesis using nz Conn_index_less [OF assms]
    by (simp add: roundRobinConnPool_Conn_def AddUint32_def Let_def unat_mod unat_of_nat)
qed

lemma Conn_small:
  assumes "1 \<le> length (conns p)" "length (conns p) < 2 ^ 32"
  shows "roundRobinConnPool_Conn p =
     (Inr (conns p ! (unat (idx p + 1) mod length (conns p))), p\<lparr>idx := idx p + 1\<rparr>)"
proof -
  have "\<not> 2 ^ 32 dvd length (conns p)" using assms by (auto dest: dvd_imp_le)
  from Conn_general [OF this] assms show ?thesis by simp
qed

text \<open>\<open>k\<close> calls in a row: call number \<open>j + 1\<close> finds the counter advanced by \<open>j\<close>.\<close>

lemma Conn_calls_closed:
  "Conn_calls k p =
     (map (\<lambda>j. fst (roundRobinConnPool_Conn (p\<lparr>idx := idx p + word_of_nat j\<rparr>))) [0..<k],
      p\<lparr>idx := idx p + word_of_nat k\<rparr>)"
proof (induction k arbitrary: p)
  case 0
  then show ?case by simp
next
  case (Suc k)
  obtain r p' where c: "roundRobinConnPool_Conn p = (r, p')"
    by (cases "roundRobinConnPool_Conn p")
  have p': "p' = p\<lparr>idx := idx p + 1\<rparr>" using Conn_idx [of p] c by simp
  have "map (\<lambda>j. fst (roundRobinConnPool_Conn (p\<lparr>idx := idx p + word_of_nat j\<rparr>))) [0..<Suc k]
      = r # map (\<lambda>j. fst (roundRobinConnPool_Conn (p'\<lparr>idx := idx p' + word_of_nat j\<rparr>))) [0..<k]"
    using c unfolding p'
    by (simp add: upt_conv_Cons map_Suc_upt [symmetric] add.assoc del: upt_Suc)
  then show ?case using c Suc.IH [of p'] by (simp add: p' add.assoc)
qed

lemma Conn_calls_length: "length (fst (Conn_calls k p)) = k"
  by (simp add: Conn_calls_closed)

lemma Conn_calls_last:
  "0 < k \<Longrightarrow> last (fst (Conn_calls k p)) =
     fst (roundRobinConnPool_Conn (p\<lparr>idx := idx p + word_of_nat (k - 1)\<rparr>))"
  by (simp add: Conn_calls_closed last_map)

lemma Conn_calls_ABC:
  "fst (Conn_calls 4 \<lparr>conns = [A, B, C], idx = 0\<rparr>) = [Inr B, Inr C, Inr A, Inr B]"
proof -
  have "[0..<4] = [0, 1, 2, 3]" by (simp add: upt_rec)
  then show ?thesis
    by (simp add: Conn_calls_closed roundRobinConnPool_Conn_def AddUint32_def)
qed

text \<open>
  Claim C1, amended. For a round-robin pool of \<open>N\<close> handles with \<open>1 \<le> N < 2 ^ 32\<close>, every
  call of \<^verbatim>\<open>Conn\<close> adds one to the counter (a 32-bit addition) and returns the handle at
  index (new counter) mod \<open>N\<close>. On a pool whose counter is 0 the call returns the element
  at index 1 mod \<open>N\<close>, not the one at index 0, and on the pool \<open>[A, B, C]\<close> with counter 0
  four calls in a row return \<open>B\<close>, \<open>C\<close>, \<open>A\<close>, \<open>B\<close>.

  The bound \<open>N < 2 ^ 32\<close> is needed: the divisor in the code is \<^verbatim>\<open>uint32(len(p.conns))\<close>,
  so on a pool of \<open>2 ^ 32 + 1\<close> handles the divisor is 1 and the first call returns the
  element at index 0.
\<close>

theorem roundRobin_Conn_selects:
  "(1 \<le> length (conns p) \<and> length (conns p) < 2 ^ 32 \<longrightarrow>
      roundRobinConnPool_Conn p =
        (Inr (conns p ! (unat (idx p + 1) mod length (conns p))), p\<lparr>idx := idx p + 1\<rparr>) \<and>
      (idx p = 0 \<longrightarrow>
         fst (roundRobinConnPool_Conn p) = Inr (conns p ! (1 mod length (conns p))))) \<and>
   fst (Conn_calls 4 \<lparr>conns = [A, B, C], idx = 0\<rparr>) = [Inr B, Inr C, Inr A, Inr B]"
  using Conn_calls_ABC [of A B C] Conn_small [of p] by auto

theorem roundRobin_Conn_selects_witness:
  "1 \<le> length [''A'', ''B'', ''C''] \<and> length [''A'', ''B'', ''C''] < 2 ^ 32 \<and>
   roundRobinConnPool_Conn \<lparr>conns = [''A'', ''B'', ''C''], idx = 0\<rparr> =
     (Inr ''B'', \<lparr>conns = [''A'', ''B'', ''C''], idx = 1\<rparr>) \<and>
   fst (Conn_calls 4 \<lparr>conns = [''A'', ''B'', ''C''], idx = 0\<rparr>)
     = [Inr ''B'', Inr ''C'', Inr ''A'', Inr ''B'']"
  using roundRobin_Conn_selects
    [where p = "\<lparr>conns = [''A'', ''B'', ''C''], idx = 0\<rparr>"
       and A = "''A''" and B = "''B''" and C = "''C''"]
  by simp

theorem roundRobin_Conn_large_pool_counterexample:
  "fst (roundRobinConnPool_Conn \<lparr>conns = [0::nat, 1] @ replicate (2 ^ 32 - 1) 2, idx = 0\<rparr>)
     = Inr 0 \<and>
   ([0::nat, 1] @ replicate (2 ^ 32 - 1) 2)
     ! (unat (0 + 1 :: 32 word) mod length ([0::nat, 1] @ replicate (2 ^ 32 - 1) 2)) = 1"
  by (simp add: roundRobinConnPool_Conn_def AddUint32_def)

text \<open>
  Claim C9, amended. For every round-robin pool whose number of handles \<open>N\<close> is not a
  multiple of \<open>2 ^ 32\<close> (so for every \<open>N\<close> from 1 to \<open>2 ^ 32 - 1\<close>) and every value of the
  counter, the index \<^verbatim>\<open>Conn\<close> computes is below \<open>N\<close> and \<^verbatim>\<open>Conn\<close> returns an element of
  the handle sequence. The out-of-range panic of the indexing is unreachable for every
  pool whatever its length.

  When \<open>N\<close> is a multiple of \<open>2 ^ 32\<close> the divisor \<^verbatim>\<open>uint32(len(p.conns))\<close> is 0 and the
  call panics with a division by zero; this is so for \<open>N = 2 ^ 32\<close>, where \<open>N \<ge> 1\<close>.
\<close>

theorem roundRobin_Conn_in_bounds:
  "fst (roundRobinConnPool_Conn p) \<noteq> Inl IndexOutOfRange \<and>
   (length (conns p) mod 2 ^ 32 \<noteq> 0 \<longrightarrow>
      unat (idx p + 1) mod (length (conns p) mod 2 ^ 32) < length (conns p) \<and>
      fst (roundRobinConnPool_Conn p)
        = Inr (conns p ! (unat (idx p + 1) mod (length (conns p) mod 2 ^ 32))) \<and>
      fst (roundRobinConnPool_Conn p) \<in> Inr ` set (conns p))"
proof (cases "2 ^ 32 dvd length (conns p)")
  case True
  then show ?thesis
    by (simp add: roundRobinConnPool_Conn_def AddUint32_def Let_def word_of_nat_32_eq_0)
next
  case False
  then have "length (conns p) mod 2 ^ 32 \<noteq> 0" by (simp add: dvd_eq_mod_eq_0)
  with Conn_general [OF False] Conn_index_less [OF False] show ?thesis by simp
qed

theorem roundRobin_Conn_in_bounds_witness:
  "length [''A'', ''B'', ''C''] mod 2 ^ 32 \<noteq> 0 \<and>
   fst (roundRobinConnPool_Conn \<lparr>conns = [''A'', ''B'', ''C''], idx = 2\<rparr>) = Inr ''A''"
proof -
  have h: "length (conns \<lparr>conns = [''A'', ''B'', ''C''], idx = 2\<rparr>) mod 2 ^ 32 \<noteq> 0" by simp
  show ?thesis
    using h roundRobin_Conn_in_bounds [of "\<lparr>conns = [''A'', ''B'', ''C''], idx = 2\<rparr>"] by simp
qed

theorem roundRobin_Conn_divide_counterexample:
  "fst (roundRobinConnPool_Conn \<lparr>conns = replicate (2 ^ 32) (0::nat), idx = 0\<rparr>)
     = Inl DivideByZero"
  by (simp add: roundRobinConnPool_Conn_def AddUint32_def)

text \<open>
  Claim C7, amended. On a round-robin pool of \<open>N\<close> handles, \<open>1 \<le> N < 2 ^ 32\<close>, whose
  counter starts at 0, call number \<open>K\<close> of \<^verbatim>\<open>Conn\<close> (counting from 1) returns the element
  at index \<open>(K mod 2 ^ 32) mod N\<close>, which is below \<open>N\<close>. This index is \<open>K mod N\<close> for every
  \<open>K < 2 ^ 32\<close>. It is \<open>K mod N\<close> for every \<open>K\<close> exactly when \<open>N\<close> divides \<open>2 ^ 32\<close>: when
  \<open>N\<close> does not divide \<open>2 ^ 32\<close>, call number \<open>2 ^ 32\<close> returns the element at index 0, and
  \<open>2 ^ 32 mod N\<close> is not 0.

  With \<open>N = 3\<close>, call number \<open>2 ^ 32\<close> returns the element at index 0, and
  \<open>2 ^ 32 mod 3 = 1\<close>. On a pool of \<open>2 ^ 32 + 1\<close> handles already the first call returns
  the element at index 0.
\<close>

theorem roundRobin_kth_call:
  "1 \<le> length cs \<and> length cs < 2 ^ 32 \<and> 1 \<le> K \<longrightarrow>
     last (fst (Conn_calls K \<lparr>conns = cs, idx = 0\<rparr>))
       = Inr (cs ! ((K mod 2 ^ 32) mod length cs)) \<and>
     (K mod 2 ^ 32) mod length cs < length cs \<and>
     (K < 2 ^ 32 \<or> length cs dvd 2 ^ 32 \<longrightarrow> (K mod 2 ^ 32) mod length cs = K mod length cs) \<and>
     (\<not> length cs dvd 2 ^ 32 \<longrightarrow>
        last (fst (Conn_calls (2 ^ 32) \<lparr>conns = cs, idx = 0\<rparr>)) = Inr (cs ! 0) \<and>
        2 ^ 32 mod length cs \<noteq> 0) \<and>
     ((\<forall>J. (J mod 2 ^ 32) mod length cs = J mod length cs) \<longleftrightarrow> length cs dvd 2 ^ 32)"
proof
  assume a: "1 \<le> length cs \<and> length cs < 2 ^ 32 \<and> 1 \<le> K"
  have call: "last (fst (Conn_calls k \<lparr>conns = cs, idx = 0\<rparr>))
       = Inr (cs ! ((k mod 2 ^ 32) mod length cs))" if k: "1 \<le> k" for k
  proof -
    let ?p = "\<lparr>conns = cs, idx = word_of_nat (k - 1)\<rparr>"
    have "(word_of_nat (k - 1) + 1 :: 32 word) = word_of_nat k" using k by (cases k) simp_all
    then have u: "unat (idx ?p + 1) = k mod 2 ^ 32"
      by (simp add: unat_of_nat)
    have "last (fst (Conn_calls k \<lparr>conns = cs, idx = 0\<rparr>)) = fst (roundRobinConnPool_Conn ?p)"
      using k by (simp add: Conn_calls_last)
    also have "\<dots> = Inr (cs ! ((k mod 2 ^ 32) mod length cs))"
      using Conn_small [of ?p] a unfolding u by simp
    finally show ?thesis .
  qed
  have c1: "last (fst (Conn_calls K \<lparr>conns = cs, idx = 0\<rparr>))
       = Inr (cs ! ((K mod 2 ^ 32) mod length cs))"
    using call [of K] a by simp
  have "0 < length cs" using a by linarith
  then have c2: "(K mod 2 ^ 32) mod length cs < length cs" by (rule mod_less_divisor)
  have c3: "(k mod 2 ^ 32) mod length cs = k mod length cs"
    if "k < 2 ^ 32 \<or> length cs dvd 2 ^ 32" for k :: nat
    using that by (auto simp add: mod_mod_cancel)
  have c4: "last (fst (Conn_calls (2 ^ 32) \<lparr>conns = cs, idx = 0\<rparr>)) = Inr (cs ! 0) \<and>
        2 ^ 32 mod length cs \<noteq> 0" if nd: "\<not> length cs dvd 2 ^ 32"
  proof -
    have "last (fst (Conn_calls (2 ^ 32) \<lparr>conns = cs, idx = 0\<rparr>)) = Inr (cs ! 0)"
      using call [of "2 ^ 32"] by simp
    moreover have "2 ^ 32 mod length cs \<noteq> 0" using nd by (simp add: mod_eq_0_iff_dvd)
    ultimately show ?thesis by simp
  qed
  have c5: "(\<forall>J. (J mod 2 ^ 32) mod length cs = J mod length cs) \<longleftrightarrow> length cs dvd 2 ^ 32"
  proof
    assume all: "\<forall>J. (J mod 2 ^ 32) mod length cs = J mod length cs"
    then have "((2 ^ 32) mod 2 ^ 32) mod length cs = (2 ^ 32) mod length cs" by blast
    then have "(2 ^ 32) mod length cs = 0" by simp
    then show "length cs dvd 2 ^ 32" by (simp add: mod_eq_0_iff_dvd)
  next
    assume "length cs dvd 2 ^ 32"
    then show "\<forall>J. (J mod 2 ^ 32) mod length cs = J mod length cs" using c3 by blast
  qed
  show "last (fst (Conn_calls K \<lparr>conns = cs, idx = 0\<rparr>))
       = Inr (cs ! ((K mod 2 ^ 32) mod length cs)) \<and>
     (K mod 2 ^ 32) mod length cs < length cs \<and>
     (K < 2 ^ 32 \<or> length cs dvd 2 ^ 32 \<longrightarrow> (K mod 2 ^ 32) mod length cs = K mod length cs) \<and>
     (\<not> length cs dvd 2 ^ 32 \<longrightarrow>
        last (fst (Conn_calls (2 ^ 32) \<lparr>conns = cs, idx = 0\<rparr>)) = Inr (cs ! 0) \<and>
        2 ^ 32 mod length cs \<noteq> 0) \<and>
     ((\<forall>J. (J mod 2 ^ 32) mod length cs = J mod length cs) \<longleftrightarrow> length cs dvd 2 ^ 32)"
    using c1 c2 c3 [of K] c4 c5 by blast
qed

theorem roundRobin_kth_call_witness:
  "1 \<le> length [''A'', ''B'', ''C''] \<and> length [''A'', ''B'', ''C''] < 2 ^ 32 \<and>
   (1::nat) \<le> 2 ^ 32 + 5 \<and> \<not> length [''A'', ''B'', ''C''] dvd 2 ^ 32 \<and>
   last (fst (Conn_calls (2 ^ 32 + 5) \<lparr>conns = [''A'', ''B'', ''C''], idx = 0\<rparr>)) = Inr ''C'' \<and>
   last (fst (Conn_calls (2 ^ 32) \<lparr>conns = [''A'', ''B'', ''C''], idx = 0\<rparr>)) = Inr ''A'' \<and>
   (2 ^ 32 + 5) mod length [''A'', ''B'', ''C''] = 0 \<and>
   2 ^ 32 mod length [''A'', ''B'', ''C''] = 1"
proof -
  have l: "length [''A'', ''B'', ''C''] = 3" by simp
  have nd: "\<not> (3::nat) dvd 2 ^ 32" by simp
  show ?thesis
    using roundRobin_kth_call [of "[''A'', ''B'', ''C'']" "2 ^ 32 + 5"] nd
    unfolding l by simp
qed

theorem roundRobin_wraparound_counterexample:
  "last (fst (Conn_calls (2 ^ 32) \<lparr>conns = [0::nat, 1, 2], idx = 0\<rparr>)) = Inr 0 \<and>
   [0::nat, 1, 2] ! (2 ^ 32 mod length [0::nat, 1, 2]) = 1 \<and>
   last (fst (Conn_calls 1 \<lparr>conns = [0::nat, 1] @ replicate (2 ^ 32 - 1) 2, idx = 0\<rparr>)) = Inr 0 \<and>
   ([0::nat, 1] @ replicate (2 ^ 32 - 1) 2)
     ! (1 mod length ([0::nat, 1] @ replicate (2 ^ 32 - 1) 2)) = 1"
  by (simp add: Conn_calls_last roundRobinConnPool_Conn_def AddUint32_def)

subsection \<open>Conn through the interface\<close>

text \<open>
  Claim C6, amended. \<^verbatim>\<open>Conn\<close> on a single connection pool returns its handle, never
  fails and leaves the pool as it is. \<^verbatim>\<open>Conn\<close> on a round-robin pool has one effect on
  the pool: it adds one to the counter (a 32-bit addition), whatever it returns; the
  handle sequence stays as it is. It returns a handle of the sequence, and so does not
  fail, when the number of handles is not a multiple of \<open>2 ^ 32\<close>.

  \<^verbatim>\<open>Conn\<close> does change the state of a round-robin pool: after one call on \<open>[0, 1, 2]\<close>
  with counter 0 the counter is 1. And it fails on a pool of \<open>2 ^ 32\<close> handles, where the
  divisor \<^verbatim>\<open>uint32(len(p.conns))\<close> is 0.
\<close>

theorem ConnPool_Conn_effect:
  "ConnPool_Conn (Single s) = (Inr (conn s), Single s) \<and>
   snd (ConnPool_Conn (RoundRobin p)) = RoundRobin (p\<lparr>idx := idx p + 1\<rparr>) \<and>
   conns (p\<lparr>idx := idx p + 1\<rparr>) = conns p \<and>
   (length (conns p) mod 2 ^ 32 \<noteq> 0 \<longrightarrow>
      fst (ConnPool_Conn (RoundRobin p)) \<in> Inr ` set (conns p))"
proof -
  have "fst (roundRobinConnPool_Conn p) \<in> Inr ` set (conns p)"
    if "length (conns p) mod 2 ^ 32 \<noteq> 0"
  proof -
    have nd: "\<not> 2 ^ 32 dvd length (conns p)" using that by (simp add: dvd_eq_mod_eq_0)
    show ?thesis using Conn_general [OF nd] Conn_index_less [OF nd] by simp
  qed
  moreover have "snd (ConnPool_Conn (RoundRobin p)) = RoundRobin (p\<lparr>idx := idx p + 1\<rparr>)"
    using Conn_idx [of p] by (auto split: prod.split)
  moreover have "fst (ConnPool_Conn (RoundRobin p)) = fst (roundRobinConnPool_Conn p)"
    by (simp split: prod.split)
  ultimately show ?thesis by (simp add: singleConnPool_Conn_def)
qed

theorem ConnPool_Conn_effect_witness:
  "length [''A'', ''B'', ''C''] mod 2 ^ 32 \<noteq> 0 \<and>
   ConnPool_Conn (RoundRobin \<lparr>conns = [''A'', ''B'', ''C''], idx = 0\<rparr>)
     = (Inr ''B'', RoundRobin \<lparr>conns = [''A'', ''B'', ''C''], idx = 1\<rparr>)"
  using ConnPool_Conn_effect [of _ "\<lparr>conns = [''A'', ''B'', ''C''], idx = 0\<rparr>"]
  by (simp add: roundRobinConnPool_Conn_def AddUint32_def)

theorem ConnPool_Conn_side_effect_counterexample:
  "snd (ConnPool_Conn (RoundRobin \<lparr>conns = [0::nat, 1, 2], idx = 0\<rparr>))
     \<noteq> RoundRobin \<lparr>conns = [0::nat, 1, 2], idx = 0\<rparr> \<and>
   fst (ConnPool_Conn (RoundRobin \<lparr>conns = replicate (2 ^ 32) (0::nat), idx = 0\<rparr>))
     = Inl DivideByZero"
  by (simp add: roundRobinConnPool_Conn_def AddUint32_def)

end
